theory Spec2Isabelle
  imports Main "HOL-Library.AList"
begin

section \<open>Python values shared by the three modules\<close>

text \<open>
  Every \<^verbatim>\<open>raise\<close> of the source, and every exception the interpreter raises on
  the source's behalf, is a value of \<open>py_error\<close>. The messages of the source's own
  \<^verbatim>\<open>raise\<close> statements are kept; interpreter messages are abbreviated.
\<close>

datatype py_error =
    ImportError string
  | ValueError string
  | IndexError string
  | TypeError string
  | KeyError string
  | AttributeError string
  | RuntimeError string
  | OverflowError string
  | Exception string

text \<open>
  A call either returns, raises, or never returns (a blocking \<^verbatim>\<open>Queue.get\<close> on a queue
  nobody fills, a \<^verbatim>\<open>Thread.join\<close> on a thread that never ends).
\<close>

datatype 'a outcome = Returned 'a | Raised py_error | Blocked

section \<open>frame\_buffer.py\<close>

subsection \<open>Data\<close>

text \<open>
  A packet of the ingestion path. \<^verbatim>\<open>p.msg.getTimestamp()\<close> is a
  \<^verbatim>\<open>datetime.timedelta\<close>, whose resolution is one microsecond: \<open>msg_timestamp\<close> is
  that value in microseconds. \<open>frame\<close> is the encoded payload.
\<close>

record packet =
  msg_timestamp :: int
  frame :: "nat list"

text \<open>
  \<^verbatim>\<open>FrameBuffer.__init__\<close>: \<^verbatim>\<open>self.buffer = deque(maxlen=maxlen)\<close> and
  \<^verbatim>\<open>self.temporary_queues = {}\<close>. The deque is its list of items, oldest first, with
  its \<open>maxlen\<close> (\<open>None\<close> is Python's \<^verbatim>\<open>None\<close>: unbounded). The dict of temporary
  queues is an association list in insertion order, keyed by the UUID (a number); a queue
  is the list of its pending items, oldest first.
\<close>

record FrameBuffer =
  buffer :: "packet list"
  maxlen :: "nat option"
  temporary_queues :: "(nat \<times> packet list) list"

text \<open>
  \<^verbatim>\<open>deque.append\<close>: the item goes to the right end; when the deque then holds more
  than \<open>maxlen\<close> items, one item is dropped from the left end.
\<close>

definition deque_append :: "nat option \<Rightarrow> 'a list \<Rightarrow> 'a \<Rightarrow> 'a list" where
  "deque_append ml d x =
     (case ml of
        None \<Rightarrow> d @ [x]
      | Some m \<Rightarrow> if m < length (d @ [x]) then tl (d @ [x]) else d @ [x])"

text \<open>\<^verbatim>\<open>FrameBuffer(maxlen)\<close>: an empty deque and no temporary queue.\<close>

definition FrameBuffer_init :: "nat option \<Rightarrow> FrameBuffer" where
  "FrameBuffer_init ml = \<lparr>buffer = [], maxlen = ml, temporary_queues = []\<rparr>"

text \<open>
  \<^verbatim>\<open>default_callback\<close>: append the packet to the buffer, then put it in every
  temporary queue.
\<close>

definition default_callback :: "FrameBuffer \<Rightarrow> packet \<Rightarrow> FrameBuffer" where
  "default_callback fb p =
     fb\<lparr>buffer := deque_append (maxlen fb) (buffer fb) p,
        temporary_queues := map (\<lambda>(k, q). (k, q @ [p])) (temporary_queues fb)\<rparr>"

text \<open>A run of pushes, in arrival order.\<close>

definition push_all :: "FrameBuffer \<Rightarrow> packet list \<Rightarrow> FrameBuffer" where
  "push_all fb ps = foldl default_callback fb ps"


subsection \<open>get\_slice\<close>

text \<open>
  \<^verbatim>\<open>list(itertools.islice(self.buffer, int(start), end))\<close>. \<open>islice\<close> refuses an
  \<open>end\<close> of \<open>-1\<close> first, then a negative \<open>start\<close> and any other negative \<open>end\<close>,
  each with a \<open>ValueError\<close>; otherwise it yields the items at positions
  \<open>start \<le> i < end\<close> that exist (all from \<open>start\<close> on when \<open>end\<close> is \<open>None\<close>).
  Indices are taken to be at most \<^verbatim>\<open>sys.maxsize\<close>: the start \<^verbatim>\<open>save_video\<close> passes
  is at most the capacity of the deque unless \<open>fps\<close> is negative.
\<close>

definition get_slice :: "FrameBuffer \<Rightarrow> int \<Rightarrow> int option \<Rightarrow> py_error + packet list" where
  "get_slice fb start stop =
     (if stop = Some (- 1)
      then Inl (ValueError ''Stop argument for islice() must be None or an integer: 0 <= x <= sys.maxsize.'')
      else if start < 0 \<or> (case stop of None \<Rightarrow> False | Some e \<Rightarrow> e < 0)
      then Inl (ValueError ''Indices for islice() must be None or an integer: 0 <= x <= sys.maxsize.'')
      else Inr (case stop of
                  None \<Rightarrow> drop (nat start) (buffer fb)
                | Some e \<Rightarrow> take (nat e - nat start) (drop (nat start) (buffer fb))))"

subsection \<open>\_mux\_video\<close>

text \<open>
  The muxing collaborator. \<^verbatim>\<open>AvWriter\<close>, the temporary directory and the generated
  file name are outside the repository: \<open>mux_env\<close> holds them, \<open>av_encode\<close> being the
  bytes of the file the writer leaves after the given messages were written to it.
  \<open>muxed\<close> records what the writer was given and what \<^verbatim>\<open>_mux_video\<close> returns.
\<close>

datatype video = VideoPath string | VideoBytes "nat list"

record mux_env =
  dir_path :: string
  file_name :: string
  av_encode :: "packet list \<Rightarrow> int \<Rightarrow> int \<times> int \<Rightarrow> nat list"

record muxed =
  written :: "packet list"
  writer_fps :: int
  writer_frame_shape :: "int \<times> int"
  result :: video

definition mux_video ::
  "mux_env \<Rightarrow> packet list \<Rightarrow> int \<Rightarrow> int \<Rightarrow> int \<Rightarrow> bool \<Rightarrow> muxed" where
  "mux_video env packets fps frame_width frame_height return_bytes =
     \<lparr>written = packets,
      writer_fps = fps,
      writer_frame_shape = (frame_width, frame_height),
      result =
        (if \<not> return_bytes
         then VideoPath (dir_path env @ ''/'' @ file_name env @ ''.mp4'')
         else VideoBytes (av_encode env packets fps (frame_width, frame_height)))\<rparr>"

subsection \<open>save\_video\<close>

text \<open>
  A \<^verbatim>\<open>datetime.timedelta\<close> holds between \<open>-999999999\<close> days and one microsecond
  less than \<open>1000000000\<close> days; building one outside this range, by the constructor or
  by a subtraction, raises \<open>OverflowError\<close>. \<open>timedelta_ok\<close> is the range, in
  microseconds.
\<close>

definition timedelta_ok :: "int \<Rightarrow> bool" where
  "timedelta_ok us = (- (999999999 * 86400000000) \<le> us \<and> us < 1000000000 * 86400000000)"

text \<open>
  The inner loop \<^verbatim>\<open>wait_until_complete\<close>, run on the items its queue receives (oldest
  first). Each \<^verbatim>\<open>get(block=True)\<close> takes one item; an item later than the pivot is
  collected; then \<^verbatim>\<open>timestamp - latest_t_before\<close> and
  \<^verbatim>\<open>datetime.timedelta(seconds=after_seconds)\<close> are built, in this order, either of
  which may raise \<open>OverflowError\<close> (which the loop's \<^verbatim>\<open>except Empty\<close> does not
  catch); the loop breaks when the first is greater than the second. When the queue runs
  dry first, \<open>get\<close> blocks for good. The result is how the loop ended, with the
  collected items when it broke, and the items left in the queue.
\<close>

fun wait_until_complete ::
  "int \<Rightarrow> int \<Rightarrow> packet list \<Rightarrow> packet list \<Rightarrow> packet list outcome \<times> packet list" where
  "wait_until_complete latest_t_before after_seconds video_frames_after [] = (Blocked, [])"
| "wait_until_complete latest_t_before after_seconds video_frames_after (p # q) =
     (let collected =
            (if latest_t_before < msg_timestamp p
             then video_frames_after @ [p] else video_frames_after)
      in if \<not> timedelta_ok (msg_timestamp p - latest_t_before) then
           (Raised (OverflowError ''timedelta subtraction out of range''), q)
         else if \<not> timedelta_ok (after_seconds * 1000000) then
           (Raised (OverflowError ''timedelta(seconds=after_seconds) out of range''), q)
         else if after_seconds * 1000000 < msg_timestamp p - latest_t_before then
           (Returned collected, q)
         else wait_until_complete latest_t_before after_seconds collected q)"

text \<open>
  \<^verbatim>\<open>FrameBuffer.save_video\<close>, with the new state of the buffer. \<open>av\<close> says whether the
  module \<^verbatim>\<open>av\<close> was imported, \<open>queue_uuid\<close> is the value \<^verbatim>\<open>uuid.uuid4()\<close> returns, and
  \<open>incoming\<close> are the packets the ingestion path pushes (through
  \<^verbatim>\<open>default_callback\<close>) between the registration of the temporary queue and the end of
  the call. The statements keep the order of the source: the slice is read, the queue is
  registered, and only then is the last "before" entry looked at. The queue is removed
  from the registry after the loop has broken, and in no other case: a call that blocks
  or raises in the loop leaves it registered, holding the items the loop has not taken.
\<close>

definition save_video ::
  "bool \<Rightarrow> mux_env \<Rightarrow> FrameBuffer \<Rightarrow> int \<Rightarrow> int \<Rightarrow> int \<Rightarrow> int \<Rightarrow> int \<Rightarrow> bool \<Rightarrow> nat \<Rightarrow> packet list
     \<Rightarrow> muxed outcome \<times> FrameBuffer" where
  "save_video av env fb before_seconds after_seconds fps frame_width frame_height return_bytes
       queue_uuid incoming =
     (if \<not> av then
        (Raised (ImportError ''av library is not installed. Cannot save video. Please make sure PyAV is installed (`pip install pyav`).''), fb)
      else if before_seconds < 0 \<or> after_seconds < 0 then
        (Raised (ValueError ''`before_seconds` and `after_seconds` must be positive.''), fb)
      else
        (case maxlen fb of
           None \<Rightarrow> (Raised (TypeError ''unsupported operand type(s) for -: NoneType and int''), fb)
         | Some m \<Rightarrow>
            (case get_slice fb (int m - before_seconds * fps) None of
               Inl e \<Rightarrow> (Raised e, fb)
             | Inr video_frames_before \<Rightarrow>
                (let fb1 = fb\<lparr>temporary_queues :=
                                AList.update queue_uuid [] (temporary_queues fb)\<rparr>
                 in if video_frames_before = [] then
                      (Raised (IndexError ''list index out of range''), fb1)
                    else
                      (let latest_t_before = msg_timestamp (last video_frames_before);
                           fb2 = push_all fb1 incoming
                       in case map_of (temporary_queues fb2) queue_uuid of
                            None \<Rightarrow> (Raised (KeyError ''queue_uuid''), fb2)
                          | Some q \<Rightarrow>
                             (case wait_until_complete latest_t_before after_seconds [] q of
                                (Returned video_frames_after, left) \<Rightarrow>
                                  (Returned (mux_video env
                                     (video_frames_before @ video_frames_after)
                                     fps frame_width frame_height return_bytes),
                                   fb2\<lparr>temporary_queues :=
                                         AList.delete queue_uuid (temporary_queues fb2)\<rparr>)
                              | (Raised e, left) \<Rightarrow>
                                  (Raised e,
                                   fb2\<lparr>temporary_queues :=
                                         AList.update queue_uuid left (temporary_queues fb2)\<rparr>)
                              | (Blocked, left) \<Rightarrow>
                                  (Blocked,
                                   fb2\<lparr>temporary_queues :=
                                         AList.update queue_uuid left (temporary_queues fb2)\<rparr>)))))))"

section \<open>live\_view.py\<close>

subsection \<open>Data\<close>

text \<open>
  A Live View: the attributes \<^verbatim>\<open>__init__\<close> sets that the registry and the video
  export read. The overlay lists and the stream handle belong to \<^verbatim>\<open>publish\<close>.
\<close>

record LiveView =
  name :: string
  unique_key :: string
  lv_device_mxid :: string
  frame_width :: int
  frame_height :: int
  fps :: int
  frame_buffer :: FrameBuffer

text \<open>
  The component a Live View is made for: its class, the size \<^verbatim>\<open>_get_stream_size\<close>
  reads and the rate \<^verbatim>\<open>_get_component_fps\<close> reads.
\<close>

datatype component_class = CameraComponent | StereoComponent | OtherComponent string

record component =
  component_class :: component_class
  stream_size :: "int \<times> int"
  component_fps :: int

text \<open>
  \<^verbatim>\<open>component.__class__.__name__.lower()\<close>, for the two classes \<^verbatim>\<open>create\<close> lets
  through.
\<close>

fun class_name_lower :: "component_class \<Rightarrow> string" where
  "class_name_lower CameraComponent = ''cameracomponent''"
| "class_name_lower StereoComponent = ''stereocomponent''"
| "class_name_lower (OtherComponent n) = n"

subsection \<open>The registry LIVE\_VIEWS\<close>

text \<open>
  \<^verbatim>\<open>LiveView.__init__\<close>: the attributes are set from the arguments and the frame
  buffer is built with \<^verbatim>\<open>maxlen=int(max_buffer_size * fps)\<close>; \<^verbatim>\<open>deque\<close> refuses a
  negative \<open>maxlen\<close> with a \<open>ValueError\<close>.
\<close>

definition LiveView_init ::
  "string \<Rightarrow> string \<Rightarrow> string \<Rightarrow> int \<Rightarrow> int \<Rightarrow> int \<Rightarrow> int \<Rightarrow> py_error + LiveView" where
  "LiveView_init nm k mxid w h f max_buffer_size =
     (if max_buffer_size * f < 0 then Inl (ValueError ''maxlen must be non-negative'')
      else Inr \<lparr>name = nm, unique_key = k, lv_device_mxid = mxid,
                frame_width = w, frame_height = h, fps = f,
                frame_buffer = FrameBuffer_init (Some (nat (max_buffer_size * f)))\<rparr>)"

text \<open>
  \<^verbatim>\<open>LIVE_VIEWS\<close> is a module-level dict. A Python dict iterates in insertion order and
  an assignment to a key it already holds keeps the key's place: \<open>AList.update\<close>.

  \<^verbatim>\<open>LiveView.create\<close>, as far as the registry is concerned: the class check of
  \<^verbatim>\<open>_is_encoder_enabled\<close>, the key (\<^verbatim>\<open>unique_key or f'{mxid}_{class}_encoded'\<close>: a key
  that is \<^verbatim>\<open>None\<close> or empty is replaced by the derived one), the construction of the
  view, and the assignment \<^verbatim>\<open>LIVE_VIEWS[unique_key] = live_view\<close>. The encoder and
  callback wiring on the device is left to the driver.
\<close>

definition create ::
  "(string \<times> LiveView) list \<Rightarrow> string \<Rightarrow> component \<Rightarrow> string \<Rightarrow> string option \<Rightarrow> int
     \<Rightarrow> py_error + (LiveView \<times> (string \<times> LiveView) list)" where
  "create live_views mxid cpt nm key max_buffer_size =
     (case component_class cpt of
        OtherComponent c \<Rightarrow>
          Inl (ValueError (''Component '' @ c @ '' must be a CameraComponent or StereoComponent.''))
      | _ \<Rightarrow>
         (let k = (case key of
                     None \<Rightarrow> mxid @ ''_'' @ class_name_lower (component_class cpt) @ ''_encoded''
                   | Some e \<Rightarrow>
                       if e = [] then mxid @ ''_'' @ class_name_lower (component_class cpt) @ ''_encoded''
                       else e)
          in case LiveView_init nm k mxid (fst (stream_size cpt)) (snd (stream_size cpt))
                    (component_fps cpt) max_buffer_size of
               Inl e \<Rightarrow> Inl e
             | Inr live_view \<Rightarrow> Inr (live_view, AList.update k live_view live_views)))"

text \<open>
  \<^verbatim>\<open>get_by_name\<close>: the loop over \<^verbatim>\<open>LIVE_VIEWS.values()\<close>, returning at the first view
  of that name, and \<^verbatim>\<open>None\<close> after the loop.
\<close>

fun get_by_name_loop :: "LiveView list \<Rightarrow> string \<Rightarrow> LiveView option" where
  "get_by_name_loop [] n = None"
| "get_by_name_loop (live_view # vs) n =
     (if name live_view = n then Some live_view else get_by_name_loop vs n)"

definition get_by_name :: "(string \<times> LiveView) list \<Rightarrow> string \<Rightarrow> LiveView option" where
  "get_by_name live_views n = get_by_name_loop (map snd live_views) n"

text \<open>\<^verbatim>\<open>get_by_unique_key\<close>\<close>

definition get_by_unique_key ::
  "(string \<times> LiveView) list \<Rightarrow> string \<Rightarrow> py_error + LiveView" where
  "get_by_unique_key live_views k =
     (case map_of live_views k of
        None \<Rightarrow> Inl (ValueError (''Live View with unique_key '' @ k @ '' does not exist.''))
      | Some v \<Rightarrow> Inr v)"

subsection \<open>save\_video\_event\<close>

text \<open>
  The keyword arguments \<^verbatim>\<open>save_video_event\<close> builds: integers, a boolean, and the
  closure \<^verbatim>\<open>on_complete\<close>, which holds the title and would call
  \<^verbatim>\<open>send_video_event(video_path, title)\<close>.
\<close>

datatype kwarg = IntArg int | BoolArg bool | OnComplete string

text \<open>
  The thread \<^verbatim>\<open>save_video_event\<close> starts: its target is always
  \<^verbatim>\<open>self.frame_buffer.save_video\<close>, so the thread is its keyword arguments and its
  \<open>daemon\<close> flag.
\<close>

record thread =
  kwargs :: "(string \<times> kwarg) list"
  daemon :: bool

definition save_video_event :: "LiveView \<Rightarrow> int \<Rightarrow> int \<Rightarrow> string \<Rightarrow> py_error + thread" where
  "save_video_event lv before_seconds after_seconds title =
     (if maxlen (frame_buffer lv) = Some 0 then
        Inl (Exception ''You have set `max_buffer_size` to zero, therefore you cannot use frame buffer.'')
      else
        Inr \<lparr>kwargs =
               [(''before_seconds'', IntArg before_seconds),
                (''after_seconds'', IntArg after_seconds),
                (''fps'', IntArg (fps lv)),
                (''frame_width'', IntArg (frame_width lv)),
                (''frame_height'', IntArg (frame_height lv)),
                (''on_complete'', OnComplete title),
                (''delete_after_complete'', BoolArg True)],
             daemon = True\<rparr>)"

text \<open>
  What the thread does: it calls its target with its keyword arguments. Python binds
  them to the parameters of \<^verbatim>\<open>save_video\<close> (\<^verbatim>\<open>return_bytes\<close> defaults to
  \<^verbatim>\<open>False\<close>) and raises \<open>TypeError\<close> at the first keyword that names no parameter,
  before the body runs.
\<close>

definition save_video_params :: "string list" where
  "save_video_params =
     [''before_seconds'', ''after_seconds'', ''fps'', ''frame_width'', ''frame_height'',
      ''return_bytes'']"

definition bind_save_video ::
  "(string \<times> kwarg) list \<Rightarrow> py_error + (int \<times> int \<times> int \<times> int \<times> int \<times> bool)" where
  "bind_save_video kw =
     (case find (\<lambda>(k, v). k \<notin> set save_video_params) kw of
        Some (k, v) \<Rightarrow>
          Inl (TypeError (''FrameBuffer.save_video() got an unexpected keyword argument '' @ k))
      | None \<Rightarrow>
         (case (map_of kw ''before_seconds'', map_of kw ''after_seconds'', map_of kw ''fps'',
                map_of kw ''frame_width'', map_of kw ''frame_height'') of
            (Some (IntArg b), Some (IntArg a), Some (IntArg f), Some (IntArg w), Some (IntArg h)) \<Rightarrow>
              (case map_of kw ''return_bytes'' of
                 None \<Rightarrow> Inr (b, a, f, w, h, False)
               | Some (BoolArg r) \<Rightarrow> Inr (b, a, f, w, h, r)
               | Some other \<Rightarrow> Inl (TypeError ''return_bytes''))
          | other \<Rightarrow> Inl (TypeError ''FrameBuffer.save_video() missing required arguments'')))"

definition thread_run ::
  "bool \<Rightarrow> mux_env \<Rightarrow> FrameBuffer \<Rightarrow> thread \<Rightarrow> nat \<Rightarrow> packet list
     \<Rightarrow> muxed outcome \<times> FrameBuffer" where
  "thread_run av env fb t queue_uuid incoming =
     (case bind_save_video (kwargs t) of
        Inl e \<Rightarrow> (Raised e, fb)
      | Inr (b, a, f, w, h, r) \<Rightarrow> save_video av env fb b a f w h r queue_uuid incoming)"

section \<open>manager.py\<close>

subsection \<open>Data\<close>

text \<open>
  The class of the devices is not part of the source; the manager reads three
  attributes of a device (\<^verbatim>\<open>device_mxid\<close>, \<^verbatim>\<open>state\<close>, \<^verbatim>\<open>hub_camera\<close>) and calls
  \<^verbatim>\<open>start\<close>, \<^verbatim>\<open>poll\<close>, \<^verbatim>\<open>info_report\<close> and \<^verbatim>\<open>stats_report\<close> on it. A session
  (\<^verbatim>\<open>hub_camera\<close>) is what its \<^verbatim>\<open>__exit__\<close> does when called: \<open>None\<close> returns,
  \<open>Some e\<close> raises with message \<open>e\<close>.
\<close>

datatype DeviceState = DISCONNECTED | CONNECTING | CONNECTED

record session =
  exit_raises :: "string option"

record Device =
  device_mxid :: string
  state :: DeviceState
  hub_camera :: "session option"

datatype thread_state = Unstarted | Alive | Dead

text \<open>
  The manager. Devices are objects shared between the lists: the lists hold references
  (numbers) and \<open>heap\<close> gives the object a reference denotes, so that an assignment to
  \<^verbatim>\<open>camera.hub_camera\<close> is seen through every list.

  \<^verbatim>\<open>booted_cameras\<close> is read by \<^verbatim>\<open>stop\<close>, \<^verbatim>\<open>_report\<close> and \<^verbatim>\<open>_poll\<close> and
  assigned nowhere in the source: here it is a field that no operation writes.

  \<open>reports\<close>, \<open>exited\<close> and \<open>streams_destroyed\<close> log what the manager did to its
  collaborators: the devices whose info and stats were published, the devices whose
  session's \<^verbatim>\<open>__exit__\<close> was called, and whether \<^verbatim>\<open>destroy_all_streams\<close> returned.
\<close>

record HubCameraManager =
  devices :: "nat list"
  connected_devices :: "nat list"
  booted_cameras :: "nat list"
  running :: bool
  stop_event :: bool
  reporting_thread :: thread_state
  polling_thread :: thread_state
  connection_thread :: thread_state
  heap :: "nat \<Rightarrow> Device"
  reports :: "nat list"
  exited :: "nat list"
  streams_destroyed :: bool

text \<open>
  What the collaborators do, as the manager sees it: whether a device's session can be
  opened (\<open>Some e\<close>: \<^verbatim>\<open>start\<close> raises with message \<open>e\<close>), whether \<^verbatim>\<open>poll\<close> returns
  true, whether fetching and publishing the reports of a device raises, and whether
  \<^verbatim>\<open>destroy_all_streams\<close> raises.
\<close>

record collaborators =
  start_raises :: "nat \<Rightarrow> string option"
  poll_ok :: "nat \<Rightarrow> bool"
  report_raises :: "nat \<Rightarrow> bool"
  destroy_raises :: "string option"

text \<open>\<^verbatim>\<open>__init__\<close>, for a given heap of device objects.\<close>

definition HubCameraManager_init :: "(nat \<Rightarrow> Device) \<Rightarrow> HubCameraManager" where
  "HubCameraManager_init h =
     \<lparr>devices = [], connected_devices = [], booted_cameras = [],
      running = False, stop_event = False,
      reporting_thread = Unstarted, polling_thread = Unstarted, connection_thread = Unstarted,
      heap = h, reports = [], exited = [], streams_destroyed = False\<rparr>"

subsection \<open>add\_device, remove\_device\<close>

definition add_device :: "HubCameraManager \<Rightarrow> nat \<Rightarrow> HubCameraManager" where
  "add_device m d = m\<lparr>devices := devices m @ [d]\<rparr>"

text \<open>\<^verbatim>\<open>list.remove\<close> removes the first occurrence and raises when there is none.\<close>

definition remove_device :: "HubCameraManager \<Rightarrow> nat \<Rightarrow> unit outcome \<times> HubCameraManager" where
  "remove_device m d =
     (if d \<in> set (devices m) then (Returned (), m\<lparr>devices := remove1 d (devices m)\<rparr>)
      else (Raised (ValueError ''list.remove(x): x not in list''), m))"

subsection \<open>The three loops\<close>

text \<open>
  One pass of the body of \<^verbatim>\<open>_report\<close>: every booted camera whose reports are fetched
  and published without an exception is logged; an exception is caught and skipped.
\<close>

definition report_body :: "collaborators \<Rightarrow> HubCameraManager \<Rightarrow> HubCameraManager" where
  "report_body env m =
     m\<lparr>reports := reports m @ filter (\<lambda>c. \<not> report_raises env c) (booted_cameras m)\<rparr>"

text \<open>
  One pass of the body of \<^verbatim>\<open>_poll\<close>: for every booted camera whose \<^verbatim>\<open>poll()\<close> is
  false, \<^verbatim>\<open>camera.hub_camera = None\<close>. Nothing else is assigned.
\<close>

fun poll_cameras :: "collaborators \<Rightarrow> nat list \<Rightarrow> (nat \<Rightarrow> Device) \<Rightarrow> (nat \<Rightarrow> Device)" where
  "poll_cameras env [] h = h"
| "poll_cameras env (c # cs) h =
     (if \<not> poll_ok env c then poll_cameras env cs (h(c := (h c)\<lparr>hub_camera := None\<rparr>))
      else poll_cameras env cs h)"

definition poll_body :: "collaborators \<Rightarrow> HubCameraManager \<Rightarrow> HubCameraManager" where
  "poll_body env m = m\<lparr>heap := poll_cameras env (booted_cameras m) (heap m)\<rparr>"

text \<open>
  One pass of the body of \<^verbatim>\<open>_connect\<close>. \<open>connect_idles\<close> is its test
  \<^verbatim>\<open>len(self._connected_devices) == len(self._devices)\<close>: when it holds the loop waits
  on the stop event and continues; otherwise the body is a comment. Neither branch
  assigns anything.
\<close>

definition connect_idles :: "HubCameraManager \<Rightarrow> bool" where
  "connect_idles m = (length (connected_devices m) = length (devices m))"

definition connect_body :: "HubCameraManager \<Rightarrow> HubCameraManager" where
  "connect_body m = (if connect_idles m then m else m)"

text \<open>
  \<^verbatim>\<open>while self.running: body\<close>, run for at most \<open>fuel\<close> passes: \<open>Some\<close> is the state in
  which the loop was left, \<open>None\<close> says that the loop is still running after \<open>fuel\<close>
  passes. The waits on the stop event end each pass and assign nothing.
\<close>

fun while_running ::
  "(HubCameraManager \<Rightarrow> HubCameraManager) \<Rightarrow> nat \<Rightarrow> HubCameraManager \<Rightarrow> HubCameraManager option" where
  "while_running body 0 m = None"
| "while_running body (Suc fuel) m =
     (if running m then while_running body fuel (body m) else Some m)"

definition report :: "collaborators \<Rightarrow> nat \<Rightarrow> HubCameraManager \<Rightarrow> HubCameraManager option" where
  "report env fuel m = while_running (report_body env) fuel m"

definition poll :: "collaborators \<Rightarrow> nat \<Rightarrow> HubCameraManager \<Rightarrow> HubCameraManager option" where
  "poll env fuel m = while_running (poll_body env) fuel m"

definition connect :: "nat \<Rightarrow> HubCameraManager \<Rightarrow> HubCameraManager option" where
  "connect fuel m = while_running connect_body fuel m"

subsection \<open>start\<close>

text \<open>
  \<^verbatim>\<open>device.start()\<close> for each device in turn, followed by the append to
  \<^verbatim>\<open>_connected_devices\<close>; an exception leaves the loop where it is.
  Modelled from the spec: \<^verbatim>\<open>Device.start\<close> (the class is not in the source) opens a
  session and fails fast when the device cannot be opened; the opened session is one
  whose \<^verbatim>\<open>__exit__\<close> returns.
\<close>

fun start_devices ::
  "collaborators \<Rightarrow> nat list \<Rightarrow> HubCameraManager \<Rightarrow> unit outcome \<times> HubCameraManager" where
  "start_devices env [] m = (Returned (), m)"
| "start_devices env (d # ds) m =
     (case start_raises env d of
        Some e \<Rightarrow> (Raised (Exception e), m)
      | None \<Rightarrow>
          start_devices env ds
            (m\<lparr>heap := (heap m)(d := (heap m d)\<lparr>state := CONNECTED,
                                                 hub_camera := Some \<lparr>exit_raises = None\<rparr>\<rparr>),
               connected_devices := connected_devices m @ [d]\<rparr>))"

text \<open>
  \<^verbatim>\<open>start\<close>. A thread can be started once (\<open>RuntimeError\<close> otherwise). With no device
  registered the caller stays in the waiting loop (\<open>Blocked\<close>) until another thread adds
  one.
\<close>

definition start :: "collaborators \<Rightarrow> HubCameraManager \<Rightarrow> unit outcome \<times> HubCameraManager" where
  "start env m =
     (let m1 = m\<lparr>running := True\<rparr> in
      if connection_thread m1 \<noteq> Unstarted then
        (Raised (RuntimeError ''threads can only be started once''), m1)
      else
        (let m2 = m1\<lparr>connection_thread := Alive\<rparr> in
         if devices m2 = [] then (Blocked, m2)
         else
           (case start_devices env (devices m2) m2 of
              (Returned u, m3) \<Rightarrow>
                if reporting_thread m3 \<noteq> Unstarted then
                  (Raised (RuntimeError ''threads can only be started once''), m3)
                else if polling_thread m3 \<noteq> Unstarted then
                  (Raised (RuntimeError ''threads can only be started once''),
                   m3\<lparr>reporting_thread := Alive\<rparr>)
                else (Returned (), m3\<lparr>reporting_thread := Alive, polling_thread := Alive\<rparr>)
            | (other, m3) \<Rightarrow> (other, m3))))"

subsection \<open>stop\<close>

text \<open>
  \<^verbatim>\<open>__graceful_thread_join\<close>: a thread that is alive is joined, which returns when
  the thread's loop has been left; \<open>None\<close> when it is not left within \<open>fuel\<close> passes.
\<close>

definition graceful_thread_join ::
  "thread_state \<Rightarrow> (nat \<Rightarrow> HubCameraManager \<Rightarrow> HubCameraManager option) \<Rightarrow> nat \<Rightarrow> HubCameraManager
     \<Rightarrow> HubCameraManager option" where
  "graceful_thread_join t loop fuel m = (if t = Alive then loop fuel m else Some m)"

text \<open>
  The loop of \<^verbatim>\<open>stop\<close> over the booted cameras: a camera that is not
  \<open>DISCONNECTED\<close> has \<^verbatim>\<open>camera.hub_camera.__exit__(...)\<close> called; any exception
  (also the \<open>AttributeError\<close> of a \<open>hub_camera\<close> that is \<open>None\<close>) is raised again at
  once as an \<open>Exception\<close> that names the device. The log is the list of the cameras
  whose \<^verbatim>\<open>__exit__\<close> was called.
\<close>

fun exit_cameras ::
  "(nat \<Rightarrow> Device) \<Rightarrow> nat list \<Rightarrow> nat list \<Rightarrow> unit outcome \<times> nat list" where
  "exit_cameras h [] log = (Returned (), log)"
| "exit_cameras h (c # cs) log =
     (if state (h c) \<noteq> DISCONNECTED then
        (case hub_camera (h c) of
           None \<Rightarrow>
             (Raised (Exception (''Device '' @ device_mxid (h c)
                @ '': could not exit with exception: ''
                @ ''NoneType object has no attribute __exit__'' @ ''.'')), log)
         | Some s \<Rightarrow>
            (case exit_raises s of
               Some e \<Rightarrow>
                 (Raised (Exception (''Device '' @ device_mxid (h c)
                    @ '': could not exit with exception: '' @ e @ ''.'')), log @ [c])
             | None \<Rightarrow> exit_cameras h cs (log @ [c])))
      else exit_cameras h cs log)"

text \<open>
  \<^verbatim>\<open>stop\<close>: set the stop event; join the connection, the reporting and the polling
  thread, in this order; destroy the streams; exit the booted cameras.
\<close>

definition release :: "collaborators \<Rightarrow> HubCameraManager \<Rightarrow> unit outcome \<times> HubCameraManager" where
  "release env m =
     (case destroy_raises env of
        Some e \<Rightarrow> (Raised (Exception (''Destroy all streams excepted with: '' @ e @ ''.'')), m)
      | None \<Rightarrow>
         (case exit_cameras (heap m) (booted_cameras m) [] of
            (r, log) \<Rightarrow> (r, m\<lparr>streams_destroyed := True, exited := exited m @ log\<rparr>)))"

definition joined :: "thread_state \<Rightarrow> thread_state" where
  "joined t = (if t = Alive then Dead else t)"

definition stop ::
  "collaborators \<Rightarrow> nat \<Rightarrow> HubCameraManager \<Rightarrow> unit outcome \<times> HubCameraManager" where
  "stop env fuel m =
     (let m0 = m\<lparr>stop_event := True\<rparr> in
      case graceful_thread_join (connection_thread m0) connect fuel m0 of
        None \<Rightarrow> (Blocked, m0)
      | Some m1 \<Rightarrow>
         (let m1' = m1\<lparr>connection_thread := joined (connection_thread m1)\<rparr> in
          case graceful_thread_join (reporting_thread m1') (report env) fuel m1' of
            None \<Rightarrow> (Blocked, m1')
          | Some m2 \<Rightarrow>
             (let m2' = m2\<lparr>reporting_thread := joined (reporting_thread m2)\<rparr> in
              case graceful_thread_join (polling_thread m2') (poll env) fuel m2' of
                None \<Rightarrow> (Blocked, m2')
              | Some m3 \<Rightarrow>
                  release env (m3\<lparr>polling_thread := joined (polling_thread m3)\<rparr>))))"

subsection \<open>Sequences of operations\<close>

text \<open>
  The operations of the coordinator, a pass of a loop being one operation, and the state
  each leaves (whether it returns, raises or blocks).
\<close>

datatype operation =
    AddDevice nat
  | RemoveDevice nat
  | Start
  | ReportPass
  | PollPass
  | ConnectPass

fun step :: "collaborators \<Rightarrow> HubCameraManager \<Rightarrow> operation \<Rightarrow> HubCameraManager" where
  "step env m (AddDevice d) = add_device m d"
| "step env m (RemoveDevice d) = snd (remove_device m d)"
| "step env m Start = snd (start env m)"
| "step env m ReportPass = (if running m then report_body env m else m)"
| "step env m PollPass = (if running m then poll_body env m else m)"
| "step env m ConnectPass = (if running m then connect_body m else m)"

definition run :: "collaborators \<Rightarrow> HubCameraManager \<Rightarrow> operation list \<Rightarrow> HubCameraManager" where
  "run env m ops = foldl (step env) m ops"

text \<open>The identities (MXIDs) of the device set, in the order of the list.\<close>

definition identities :: "HubCameraManager \<Rightarrow> string list" where
  "identities m = map (\<lambda>d. device_mxid (heap m d)) (devices m)"

text \<open>
  A sequence of operations in which every \<open>AddDevice\<close> adds a device whose identity
  the device set does not hold at that moment.
\<close>

fun adds_fresh :: "collaborators \<Rightarrow> HubCameraManager \<Rightarrow> operation list \<Rightarrow> bool" where
  "adds_fresh env m [] = True"
| "adds_fresh env m (AddDevice d # ops) =
     (device_mxid (heap m d) \<notin> set (identities m) \<and> adds_fresh env (add_device m d) ops)"
| "adds_fresh env m (x # ops) = adds_fresh env (step env m x) ops"

subsection \<open>Predicates on states\<close>

text \<open>
  A device that the loop of \<^verbatim>\<open>stop\<close> passes without an exception: it is
  \<open>DISCONNECTED\<close>, or it has a session whose \<^verbatim>\<open>__exit__\<close> returns.
\<close>

definition exits_quietly :: "Device \<Rightarrow> bool" where
  "exits_quietly d =
     (state d = DISCONNECTED
      \<or> (case hub_camera d of None \<Rightarrow> False | Some s \<Rightarrow> exit_raises s = None))"

text \<open>The state of a manager whose connection thread has been started.\<close>

definition live :: "HubCameraManager \<Rightarrow> bool" where
  "live m = (running m \<and> connection_thread m = Alive)"

section \<open>Concrete values\<close>

text \<open>
  Small inputs on which the theorems below are evaluated: packets that differ in their
  timestamp only, a muxing environment, a camera component, Live Views and frame buffers;
  then a heap of three devices, all \<open>CONNECTED\<close> with a session, the session of device 0
  raising in \<^verbatim>\<open>__exit__\<close>; collaborators for which nothing raises and only device 0
  fails its poll; and a manager as \<^verbatim>\<open>__init__\<close> leaves it, with the given booted cameras.
\<close>

definition pkt :: "int \<Rightarrow> packet" where
  "pkt t = \<lparr>msg_timestamp = t, frame = []\<rparr>"

definition example_env :: mux_env where
  "example_env = \<lparr>dir_path = ''/tmp/d'', file_name = ''v'',
                   av_encode = (\<lambda>ps f s. map (\<lambda>p. nat (msg_timestamp p)) ps)\<rparr>"

definition camera :: component where
  "camera = \<lparr>component_class = CameraComponent, stream_size = (640, 480), component_fps = 30\<rparr>"

definition example_view :: "string \<Rightarrow> string \<Rightarrow> string \<Rightarrow> nat \<Rightarrow> LiveView" where
  "example_view mxid nm k n =
     \<lparr>name = nm, unique_key = k, lv_device_mxid = mxid, frame_width = 640, frame_height = 480,
      fps = 30, frame_buffer = FrameBuffer_init (Some n)\<rparr>"

definition example_buffer :: "nat \<Rightarrow> packet list \<Rightarrow> FrameBuffer" where
  "example_buffer C ps = \<lparr>buffer = ps, maxlen = Some C, temporary_queues = []\<rparr>"

definition example_device :: "string \<Rightarrow> string option \<Rightarrow> Device" where
  "example_device mxid e =
     \<lparr>device_mxid = mxid, state = CONNECTED, hub_camera = Some \<lparr>exit_raises = e\<rparr>\<rparr>"

definition example_heap :: "nat \<Rightarrow> Device" where
  "example_heap =
     (\<lambda>d. example_device ''C'' None)
       (0 := example_device ''A'' (Some ''boom''), 1 := example_device ''B'' None)"

definition quiet :: collaborators where
  "quiet = \<lparr>start_raises = (\<lambda>d. None), poll_ok = (\<lambda>d. d \<noteq> 0),
            report_raises = (\<lambda>d. False), destroy_raises = None\<rparr>"

definition example_manager :: "nat list \<Rightarrow> HubCameraManager" where
  "example_manager cams = (HubCameraManager_init example_heap)\<lparr>booted_cameras := cams\<rparr>"

section \<open>Ring buffer: eviction order\<close>

lemma deque_append_full:
  "deque_append (Some (length d)) d x = drop 1 (d @ [x])"
  by (cases d) (simp_all add: deque_append_def)

lemma deque_append_room:
  "length d < m \<Longrightarrow> deque_append (Some m) d x = d @ [x]"
  by (simp add: deque_append_def)

lemma deque_append_bounded:
  assumes "length d \<le> m"
  shows "deque_append (Some m) d x = drop (length (d @ [x]) - m) (d @ [x])"
proof (cases "length d = m")
  case True
  then have "deque_append (Some m) d x = drop 1 (d @ [x])"
    using deque_append_full [of d x] by simp
  moreover have "length (d @ [x]) - m = 1" using True by simp
  ultimately show ?thesis by (simp only:)
next
  case False
  with assms show ?thesis by (simp add: deque_append_room)
qed

lemma drop_window_step:
  assumes "length B \<le> m"
  shows "drop (length (drop (length (B @ [p]) - m) (B @ [p]) @ ps) - m)
           (drop (length (B @ [p]) - m) (B @ [p]) @ ps)
       = drop (length (B @ p # ps) - m) (B @ p # ps)"
proof (cases "length B = m")
  case True
  have n: "length (B @ [p]) - m = 1" using True by simp
  have a: "drop 1 (B @ [p]) @ ps = drop 1 (B @ p # ps)"
    by (cases B) simp_all
  have l: "length (drop 1 (B @ p # ps)) - m = length ps" using True by simp
  have r: "length (B @ p # ps) - m = Suc (length ps)" using True by simp
  have "drop (length ps) (drop 1 (B @ p # ps)) = drop (Suc (length ps)) (B @ p # ps)"
    by (simp only: drop_drop Suc_eq_plus1)
  then show ?thesis unfolding n a l r .
next
  case False
  with assms show ?thesis by simp
qed

lemma deque_append_length:
  "length d \<le> m \<Longrightarrow> length (deque_append (Some m) d x) \<le> m"
  by (simp add: deque_append_bounded)

lemma buffer_default_callback [simp]:
  "buffer (default_callback fb p) = deque_append (maxlen fb) (buffer fb) p"
  by (simp add: default_callback_def)

lemma maxlen_default_callback [simp]:
  "maxlen (default_callback fb p) = maxlen fb"
  by (simp add: default_callback_def)

lemma maxlen_push_all [simp]: "maxlen (push_all fb ps) = maxlen fb"
  unfolding push_all_def by (induction ps arbitrary: fb) simp_all

lemma push_all_Cons [simp]:
  "push_all fb (p # ps) = push_all (default_callback fb p) ps"
  by (simp add: push_all_def)

lemma push_all_Nil [simp]: "push_all fb [] = fb"
  by (simp add: push_all_def)

lemma push_all_buffer:
  "maxlen fb = Some m \<Longrightarrow> length (buffer fb) \<le> m \<Longrightarrow>
   buffer (push_all fb ps) = drop (length (buffer fb @ ps) - m) (buffer fb @ ps)"
proof (induction ps arbitrary: fb)
  case Nil
  then show ?case by simp
next
  case (Cons p ps)
  let ?fb = "default_callback fb p"
  have len: "length (buffer ?fb) \<le> m"
    using Cons.prems by (simp add: deque_append_length)
  have step: "buffer ?fb = drop (length (buffer fb @ [p]) - m) (buffer fb @ [p])"
    using Cons.prems by (simp add: deque_append_bounded)
  have "buffer (push_all ?fb ps) = drop (length (buffer ?fb @ ps) - m) (buffer ?fb @ ps)"
    using Cons.IH [of ?fb] Cons.prems len by simp
  also have "\<dots> = drop (length (buffer fb @ p # ps) - m) (buffer fb @ p # ps)"
    unfolding step using Cons.prems(2) by (rule drop_window_step)
  finally show ?case by simp
qed

text \<open>
  C8. A buffer of capacity \<open>C > 0\<close>, built empty, after \<open>C + k\<close> pushes holds the last
  \<open>C\<close> pushed entries and nothing else, in arrival order: the first \<open>k\<close> are gone.
\<close>

theorem ring_buffer_keeps_last_C:
  assumes "0 < C" and "length ps = C + k"
  shows "buffer (push_all (FrameBuffer_init (Some C)) ps) = drop k ps
       \<and> length (buffer (push_all (FrameBuffer_init (Some C)) ps)) = C"
  using assms push_all_buffer [of "FrameBuffer_init (Some C)" C ps]
  by (simp add: FrameBuffer_init_def)

theorem ring_buffer_keeps_last_C_witness:
  "buffer (push_all (FrameBuffer_init (Some 2)) [pkt 1, pkt 2, pkt 3]) = [pkt 2, pkt 3]
   \<and> length (buffer (push_all (FrameBuffer_init (Some 2)) [pkt 1, pkt 2, pkt 3])) = 2"
  using ring_buffer_keeps_last_C [of 2 "[pkt 1, pkt 2, pkt 3]" 1] by simp

section \<open>The registry of Live Views\<close>

lemma get_by_name_loop_find: "get_by_name_loop vs n = find (\<lambda>v. name v = n) vs"
  by (induction vs) simp_all

lemma LiveView_init_fields:
  assumes "0 \<le> s * f"
  shows "\<exists>lv. LiveView_init n k mxid w h f s = Inr lv
            \<and> name lv = n \<and> unique_key lv = k \<and> lv_device_mxid lv = mxid
            \<and> frame_width lv = w \<and> frame_height lv = h \<and> fps lv = f
            \<and> frame_buffer lv = FrameBuffer_init (Some (nat (s * f)))"
  using assms by (simp add: LiveView_init_def)

lemma create_explicit_key:
  assumes "k \<noteq> []"
    and "component_class c = CameraComponent \<or> component_class c = StereoComponent"
    and "LiveView_init n k mxid (fst (stream_size c)) (snd (stream_size c)) (component_fps c) s
           = Inr lv"
  shows "create reg mxid c n (Some k) s = Inr (lv, AList.update k lv reg)"
  using assms by (auto simp: create_def)

lemma update_update_same:
  "map_of (AList.update k v (AList.update k w al)) = (map_of al)(k \<mapsto> v)"
  by (simp add: update_conv')

lemma keys_update_present:
  "k \<in> fst ` set al \<Longrightarrow> map fst (AList.update k v al) = map fst al"
  by (simp add: update_keys)

text \<open>
  C9. Two Live Views created one after the other with the same explicit unique key \<open>k\<close>
  (a key that is not empty: \<^verbatim>\<open>create\<close> takes an empty key for a missing one), each
  for a camera or stereo component and with a buffer size that is not negative, on any
  registry \<open>reg0\<close>. Both creations return, also the second one, whose key is taken: the
  second returns the view built from its own arguments, and the registry it leaves is
  \<open>reg0\<close> with \<open>k\<close> bound to that view, every other key as in \<open>reg0\<close>, the keys in the
  order the first creation left. Lookup by key gives the second view. Lookup by name
  scans the registry's values in order and returns the first view of that name, so the
  second view's name is found, and the result is \<open>None\<close> exactly when no view has the
  name.
\<close>

theorem registry_last_write_wins_and_first_name_match:
  assumes "k \<noteq> []"
    and "component_class c1 = CameraComponent \<or> component_class c1 = StereoComponent"
    and "component_class c2 = CameraComponent \<or> component_class c2 = StereoComponent"
    and "0 \<le> s1 * component_fps c1" and "0 \<le> s2 * component_fps c2"
  shows "\<exists>lv1 reg1 lv2 reg2.
           create reg0 mxid1 c1 n1 (Some k) s1 = Inr (lv1, reg1)
         \<and> create reg1 mxid2 c2 n2 (Some k) s2 = Inr (lv2, reg2)
         \<and> LiveView_init n1 k mxid1 (fst (stream_size c1)) (snd (stream_size c1))
               (component_fps c1) s1 = Inr lv1
         \<and> LiveView_init n2 k mxid2 (fst (stream_size c2)) (snd (stream_size c2))
               (component_fps c2) s2 = Inr lv2
         \<and> name lv2 = n2 \<and> unique_key lv2 = k \<and> lv_device_mxid lv2 = mxid2
         \<and> map_of reg1 = (map_of reg0)(k \<mapsto> lv1)
         \<and> map_of reg2 = (map_of reg0)(k \<mapsto> lv2)
         \<and> get_by_unique_key reg2 k = Inr lv2
         \<and> map fst reg1 = (if k \<in> fst ` set reg0 then map fst reg0 else map fst reg0 @ [k])
         \<and> map fst reg2 = map fst reg1
         \<and> get_by_name reg2 n = find (\<lambda>v. name v = n) (map snd reg2)
         \<and> (get_by_name reg2 n = None) = (n \<notin> name ` snd ` set reg2)
         \<and> (\<exists>v. get_by_name reg2 n2 = Some v \<and> name v = n2)"
proof -
  obtain lv1 where i1: "LiveView_init n1 k mxid1 (fst (stream_size c1)) (snd (stream_size c1))
               (component_fps c1) s1 = Inr lv1"
    using LiveView_init_fields [OF assms(4)] by blast
  obtain lv2 where i2: "LiveView_init n2 k mxid2 (fst (stream_size c2)) (snd (stream_size c2))
               (component_fps c2) s2 = Inr lv2"
    and f2: "name lv2 = n2" "unique_key lv2 = k" "lv_device_mxid lv2 = mxid2"
    using LiveView_init_fields [OF assms(5)] by blast
  let ?reg1 = "AList.update k lv1 reg0"
  let ?reg2 = "AList.update k lv2 ?reg1"
  have c1: "create reg0 mxid1 c1 n1 (Some k) s1 = Inr (lv1, ?reg1)"
    using create_explicit_key [OF assms(1,2) i1] .
  have c2: "create ?reg1 mxid2 c2 n2 (Some k) s2 = Inr (lv2, ?reg2)"
    using create_explicit_key [OF assms(1,3) i2] .
  have m1: "map_of ?reg1 = (map_of reg0)(k \<mapsto> lv1)" by (simp add: update_conv')
  have m2: "map_of ?reg2 = (map_of reg0)(k \<mapsto> lv2)" by (rule update_update_same)
  have g: "get_by_unique_key ?reg2 k = Inr lv2"
    by (simp add: get_by_unique_key_def update_conv')
  have k1: "map fst ?reg1 = (if k \<in> fst ` set reg0 then map fst reg0 else map fst reg0 @ [k])"
    by (simp add: update_keys)
  have "k \<in> fst ` set ?reg1" by (simp add: dom_update)
  then have k2: "map fst ?reg2 = map fst ?reg1" by (rule keys_update_present)
  have d: "get_by_name ?reg2 n = find (\<lambda>v. name v = n) (map snd ?reg2)"
    by (simp add: get_by_name_def get_by_name_loop_find)
  have e: "(get_by_name ?reg2 n = None) = (n \<notin> name ` snd ` set ?reg2)"
    unfolding d by (auto simp: find_None_iff)
  have "(k, lv2) \<in> set ?reg2"
    using m2 by (metis fun_upd_same map_of_SomeD)
  then have "\<exists>v \<in> set (map snd ?reg2). name v = n2"
    using f2(1) by force
  then obtain v where "find (\<lambda>v. name v = n2) (map snd ?reg2) = Some v"
    by (cases "find (\<lambda>v. name v = n2) (map snd ?reg2)") (auto simp: find_None_iff)
  moreover from this have "name v = n2" by (auto simp: find_Some_iff)
  ultimately have h: "\<exists>v. get_by_name ?reg2 n2 = Some v \<and> name v = n2"
    by (simp add: get_by_name_def get_by_name_loop_find)
  show ?thesis
    apply (insert c1 c2 i1 i2 f2 m1 m2 g k1 k2 d e h)
    apply (rule exI [of _ lv1], rule exI [of _ "AList.update k lv1 reg0"])
    apply (rule exI [of _ lv2], rule exI [of _ "AList.update k lv2 (AList.update k lv1 reg0)"])
    apply (intro conjI; assumption)
    done
qed

theorem registry_witness:
  "create [(''other'', example_view ''Z'' ''side'' ''other'' 0)] ''A'' camera ''front'' (Some ''k'') 0
     = Inr (example_view ''A'' ''front'' ''k'' 0,
            [(''other'', example_view ''Z'' ''side'' ''other'' 0),
             (''k'', example_view ''A'' ''front'' ''k'' 0)])
   \<and> create [(''other'', example_view ''Z'' ''side'' ''other'' 0),
              (''k'', example_view ''A'' ''front'' ''k'' 0)] ''B'' camera ''rear'' (Some ''k'') 0
     = Inr (example_view ''B'' ''rear'' ''k'' 0,
            [(''other'', example_view ''Z'' ''side'' ''other'' 0),
             (''k'', example_view ''B'' ''rear'' ''k'' 0)])
   \<and> get_by_name [(''other'', example_view ''Z'' ''side'' ''other'' 0),
                   (''k'', example_view ''B'' ''rear'' ''k'' 0)] ''front'' = None
   \<and> get_by_name [(''other'', example_view ''Z'' ''side'' ''other'' 0),
                   (''k'', example_view ''B'' ''rear'' ''k'' 0)] ''rear''
        = Some (example_view ''B'' ''rear'' ''k'' 0)"
proof -
  have k: "''k'' \<noteq> []" by simp
  have c: "component_class camera = CameraComponent \<or> component_class camera = StereoComponent"
    by (simp add: camera_def)
  have s: "0 \<le> 0 * component_fps camera" by simp
  let ?reg0 = "[(''other'', example_view ''Z'' ''side'' ''other'' 0)]"
  obtain lv1 reg1 lv2 reg2 v where
    c1: "create ?reg0 ''A'' camera ''front'' (Some ''k'') 0 = Inr (lv1, reg1)" and
    c2: "create reg1 ''B'' camera ''rear'' (Some ''k'') 0 = Inr (lv2, reg2)" and
    n1: "(get_by_name reg2 ''front'' = None) = (''front'' \<notin> name ` snd ` set reg2)" and
    v: "get_by_name reg2 ''rear'' = Some v" "name v = ''rear''"
    using registry_last_write_wins_and_first_name_match [OF k c c s s,
        of ?reg0 "''A''" "''front''" "''B''" "''rear''" "''front''"]
    by (elim exE conjE) (rule that; assumption)
  have e1: "create ?reg0 ''A'' camera ''front'' (Some ''k'') 0
     = Inr (example_view ''A'' ''front'' ''k'' 0,
            [(''other'', example_view ''Z'' ''side'' ''other'' 0),
             (''k'', example_view ''A'' ''front'' ''k'' 0)])"
    by (simp add: create_def LiveView_init_def camera_def example_view_def Let_def)
  have r1: "reg1 = [(''other'', example_view ''Z'' ''side'' ''other'' 0),
                    (''k'', example_view ''A'' ''front'' ''k'' 0)]"
    using c1 [unfolded e1] by auto
  have e2: "create reg1 ''B'' camera ''rear'' (Some ''k'') 0
     = Inr (example_view ''B'' ''rear'' ''k'' 0,
            [(''other'', example_view ''Z'' ''side'' ''other'' 0),
             (''k'', example_view ''B'' ''rear'' ''k'' 0)])"
    unfolding r1 by (simp add: create_def LiveView_init_def camera_def example_view_def Let_def)
  have r2: "reg2 = [(''other'', example_view ''Z'' ''side'' ''other'' 0),
                    (''k'', example_view ''B'' ''rear'' ''k'' 0)]"
    using c2 [unfolded e2] by auto
  have g1: "get_by_name reg2 ''front'' = None"
    using n1 unfolding r2 by (simp add: example_view_def)
  have "v = example_view ''B'' ''rear'' ''k'' 0"
    using v(1) unfolding r2 by (simp add: get_by_name_def example_view_def)
  then have g2: "get_by_name reg2 ''rear'' = Some (example_view ''B'' ''rear'' ''k'' 0)"
    using v(1) by simp
  show ?thesis using e1 e2 g1 g2 unfolding r1 r2 by simp
qed

section \<open>Video export\<close>

subsection \<open>Rejected requests\<close>




subsection \<open>The export thread of a Live View\<close>

lemma bind_save_video_event_kwargs:
  "save_video_event lv b a t = Inr th \<Longrightarrow>
   bind_save_video (kwargs th)
     = Inl (TypeError ''FrameBuffer.save_video() got an unexpected keyword argument on_complete'')"
  by (auto simp: save_video_event_def bind_save_video_def save_video_params_def split: if_splits)

text \<open>
  C7. What the code does: on a view whose buffer has a capacity other than zero,
  \<^verbatim>\<open>save_video_event\<close> starts a daemon thread and hands the callback \<^verbatim>\<open>on_complete\<close>
  to it as a keyword argument; \<^verbatim>\<open>save_video\<close> has no such parameter, so the thread
  ends with a \<open>TypeError\<close> before the export begins, whatever the buffer holds and
  whatever arrives: no video is made and the callback is not called.
\<close>

theorem save_video_event_thread_raises:
  assumes "maxlen (frame_buffer lv) \<noteq> Some 0"
  shows "\<exists>th. save_video_event lv b a t = Inr th
          \<and> daemon th
          \<and> map_of (kwargs th) ''on_complete'' = Some (OnComplete t)
          \<and> thread_run av env (frame_buffer lv) th u inc
              = (Raised (TypeError ''FrameBuffer.save_video() got an unexpected keyword argument on_complete''),
                 frame_buffer lv)"
proof -
  obtain th where th: "save_video_event lv b a t = Inr th"
    using assms by (simp add: save_video_event_def)
  have "thread_run av env (frame_buffer lv) th u inc
      = (Raised (TypeError ''FrameBuffer.save_video() got an unexpected keyword argument on_complete''),
         frame_buffer lv)"
    using bind_save_video_event_kwargs [OF th] by (simp add: thread_run_def)
  moreover have "daemon th" "map_of (kwargs th) ''on_complete'' = Some (OnComplete t)"
    using th assms by (auto simp: save_video_event_def)
  ultimately show ?thesis using th by blast
qed

theorem thread_raises_witness:
  "\<exists>th. save_video_event (example_view ''A'' ''front'' ''k'' 300) 1 1 ''title'' = Inr th
     \<and> thread_run True example_env (frame_buffer (example_view ''A'' ''front'' ''k'' 300)) th 7 [pkt 5]
         = (Raised (TypeError ''FrameBuffer.save_video() got an unexpected keyword argument on_complete''),
            frame_buffer (example_view ''A'' ''front'' ''k'' 300))"
proof -
  have h: "maxlen (frame_buffer (example_view ''A'' ''front'' ''k'' 300)) \<noteq> Some 0"
    by (simp add: example_view_def FrameBuffer_init_def)
  show ?thesis
    using save_video_event_thread_raises [OF h, of 1 1 "''title''" True example_env 7 "[pkt 5]"]
    by blast
qed

subsection \<open>The export itself\<close>

lemma temporary_queues_default_callback [simp]:
  "temporary_queues (default_callback fb p) = map (\<lambda>(k, q). (k, q @ [p])) (temporary_queues fb)"
  by (simp add: default_callback_def)

lemma temporary_queues_push_all:
  "temporary_queues (push_all fb ps) = map (\<lambda>(k, q). (k, q @ ps)) (temporary_queues fb)"
proof (induction ps arbitrary: fb)
  case Nil
  then show ?case by simp
next
  case (Cons p ps)
  then show ?case by (simp add: comp_def case_prod_unfold)
qed

lemma queue_after_pushes:
  "map_of (temporary_queues (push_all fb ps)) u
     = map_option (\<lambda>q. q @ ps) (map_of (temporary_queues fb) u)"
  by (simp add: temporary_queues_push_all map_of_map)

lemma registered_queue_after_pushes:
  "map_of (temporary_queues
      (push_all (fb\<lparr>temporary_queues := AList.update u [] (temporary_queues fb)\<rparr>) ps)) u
     = Some ps"
  by (simp add: queue_after_pushes update_conv')

lemma wait_until_complete_break:
  assumes "timedelta_ok (a * 1000000)"
    and "\<forall>p \<in> set pre. timedelta_ok (msg_timestamp p - t) \<and> msg_timestamp p - t \<le> a * 1000000"
    and "timedelta_ok (msg_timestamp brk - t)"
    and "a * 1000000 < msg_timestamp brk - t"
  shows "wait_until_complete t a acc (pre @ brk # rest)
       = (Returned (acc @ filter (\<lambda>p. t < msg_timestamp p) (pre @ [brk])), rest)"
  using assms by (induction pre arbitrary: acc) (simp_all add: Let_def)

lemma wait_until_complete_blocks:
  assumes "timedelta_ok (a * 1000000)"
    and "\<forall>p \<in> set q. timedelta_ok (msg_timestamp p - t) \<and> msg_timestamp p - t \<le> a * 1000000"
  shows "wait_until_complete t a acc q = (Blocked, [])"
  using assms by (induction q arbitrary: acc) (simp_all add: Let_def)

text \<open>
  Where the export does what is expected of it: on a buffer of capacity \<open>C\<close> that holds
  more than \<open>C - b * f\<close> entries (a full buffer when \<open>b * f\<close> is positive), with an
  entry later than the pivot by more than \<open>a\<close> seconds among those pushed during the
  call, the "before" entries followed by the "after" entries are given to the muxing
  collaborator and the temporary queue is removed.
\<close>

lemma save_video_on_filled_window:
  assumes "av" and "0 \<le> b" and "0 \<le> a"
    and "maxlen fb = Some C"
    and "0 \<le> int C - b * f"
    and "int C - b * f < int (length (buffer fb))"
    and "inc = pre @ brk # rest"
    and "timedelta_ok (a * 1000000)"
    and "\<forall>p \<in> set pre. timedelta_ok (msg_timestamp p - msg_timestamp (last (buffer fb)))
            \<and> msg_timestamp p - msg_timestamp (last (buffer fb)) \<le> a * 1000000"
    and "timedelta_ok (msg_timestamp brk - msg_timestamp (last (buffer fb)))"
    and "a * 1000000 < msg_timestamp brk - msg_timestamp (last (buffer fb))"
  shows "fst (save_video av env fb b a f w h r u inc)
           = Returned (mux_video env
               (drop (nat (int C - b * f)) (buffer fb)
                @ filter (\<lambda>p. msg_timestamp (last (buffer fb)) < msg_timestamp p) (pre @ [brk]))
               f w h r)
       \<and> u \<notin> fst ` set (temporary_queues (snd (save_video av env fb b a f w h r u inc)))
       \<and> map_of (temporary_queues (snd (save_video av env fb b a f w h r u inc)))
           = (map_of (temporary_queues (push_all fb inc)))(u := None)"
proof -
  let ?n = "nat (int C - b * f)"
  let ?before = "drop ?n (buffer fb)"
  let ?fb1 = "fb\<lparr>temporary_queues := AList.update u [] (temporary_queues fb)\<rparr>"
  have n: "?n < length (buffer fb)" using assms(5,6) by simp
  have slice: "get_slice fb (int C - b * f) None = Inr ?before"
    using assms(5) by (simp add: get_slice_def)
  have ne: "?before \<noteq> []" using n by simp
  have piv: "msg_timestamp (last ?before) = msg_timestamp (last (buffer fb))"
    using n by simp
  have q: "map_of (temporary_queues (push_all ?fb1 inc)) u = Some inc"
    by (rule registered_queue_after_pushes)
  have w: "wait_until_complete (msg_timestamp (last (buffer fb))) a [] inc
         = (Returned (filter (\<lambda>p. msg_timestamp (last (buffer fb)) < msg_timestamp p) (pre @ [brk])),
            rest)"
    unfolding assms(7)
    using wait_until_complete_break [OF assms(8,9,10,11), of "[]" rest] by simp
  have sv: "save_video av env fb b a f w h r u inc
      = (Returned (mux_video env
               (?before @ filter (\<lambda>p. msg_timestamp (last (buffer fb)) < msg_timestamp p) (pre @ [brk]))
               f w h r),
         (push_all ?fb1 inc)\<lparr>temporary_queues :=
            AList.delete u (temporary_queues (push_all ?fb1 inc))\<rparr>)"
    unfolding save_video_def using assms(1-4) slice ne q w
    by (simp add: Let_def piv del: last_drop)
  have tq: "temporary_queues (push_all ?fb1 inc)
      = map (\<lambda>(k, q). (k, q @ inc)) (AList.update u [] (temporary_queues fb))"
    by (simp add: temporary_queues_push_all)
  have m: "map_of (AList.delete u (temporary_queues (push_all ?fb1 inc)))
      = (map_of (temporary_queues (push_all fb inc)))(u := None)"
    unfolding tq
    by (rule ext) (simp add: delete_conv' temporary_queues_push_all map_of_map update_conv' map_option_case)
  show ?thesis unfolding sv
    by (simp add: m delete_notin_dom)
qed

lemma save_video_on_filled_window_example:
  "fst (save_video True example_env (example_buffer 2 [pkt 1, pkt 2]) 1 1 1 640 480 True 7
          [pkt 3, pkt 1000001, pkt 1000003, pkt 1000004])
     = Returned (mux_video example_env [pkt 2, pkt 3, pkt 1000001, pkt 1000003] 1 640 480 True)"
proof -
  have "fst (save_video True example_env (example_buffer 2 [pkt 1, pkt 2]) 1 1 1 640 480 True 7
          ([pkt 3, pkt 1000001] @ pkt 1000003 # [pkt 1000004]))
     = Returned (mux_video example_env
         (drop (nat (int 2 - 1 * 1)) (buffer (example_buffer 2 [pkt 1, pkt 2]))
          @ filter (\<lambda>p. msg_timestamp (last (buffer (example_buffer 2 [pkt 1, pkt 2]))) < msg_timestamp p)
              ([pkt 3, pkt 1000001] @ [pkt 1000003])) 1 640 480 True)"
    using save_video_on_filled_window [of True 1 1 "example_buffer 2 [pkt 1, pkt 2]" 2 1
        "[pkt 3, pkt 1000001] @ pkt 1000003 # [pkt 1000004]" "[pkt 3, pkt 1000001]" "pkt 1000003"
        "[pkt 1000004]" example_env 640 480 True 7]
    by (simp add: example_buffer_def pkt_def timedelta_ok_def)
  then show ?thesis by (simp add: example_buffer_def pkt_def)
qed

text \<open>
  Under the same conditions on the buffer, when no entry pushed during the call is later
  than the pivot by more than \<open>a\<close> seconds, the call does not return: it waits on its
  queue, which stays registered.
\<close>

lemma save_video_waits_for_a_late_entry:
  assumes "av" and "0 \<le> b" and "0 \<le> a"
    and "maxlen fb = Some C"
    and "0 \<le> int C - b * f"
    and "int C - b * f < int (length (buffer fb))"
    and "timedelta_ok (a * 1000000)"
    and "\<forall>p \<in> set inc. timedelta_ok (msg_timestamp p - msg_timestamp (last (buffer fb)))
            \<and> msg_timestamp p - msg_timestamp (last (buffer fb)) \<le> a * 1000000"
  shows "fst (save_video av env fb b a f w h r u inc) = Blocked
       \<and> u \<in> fst ` set (temporary_queues (snd (save_video av env fb b a f w h r u inc)))"
proof -
  let ?n = "nat (int C - b * f)"
  let ?before = "drop ?n (buffer fb)"
  let ?fb1 = "fb\<lparr>temporary_queues := AList.update u [] (temporary_queues fb)\<rparr>"
  have n: "?n < length (buffer fb)" using assms(5,6) by simp
  have slice: "get_slice fb (int C - b * f) None = Inr ?before"
    using assms(5) by (simp add: get_slice_def)
  have ne: "?before \<noteq> []" using n by simp
  have piv: "msg_timestamp (last ?before) = msg_timestamp (last (buffer fb))"
    using n by simp
  have q: "map_of (temporary_queues (push_all ?fb1 inc)) u = Some inc"
    by (rule registered_queue_after_pushes)
  have w: "wait_until_complete (msg_timestamp (last (buffer fb))) a [] inc = (Blocked, [])"
    using wait_until_complete_blocks [OF assms(7,8)] .
  have sv: "save_video av env fb b a f w h r u inc
      = (Blocked, (push_all ?fb1 inc)\<lparr>temporary_queues :=
            AList.update u [] (temporary_queues (push_all ?fb1 inc))\<rparr>)"
    unfolding save_video_def using assms(1-4) slice ne q w
    by (simp add: Let_def piv del: last_drop)
  show ?thesis unfolding sv by (simp add: dom_update)
qed

text \<open>
  An \<open>after_seconds\<close> of a thousand million days has no \<open>timedelta\<close>: the first
  entry taken from the queue ends the call with \<open>OverflowError\<close>, the queue staying
  registered.
\<close>

lemma save_video_after_seconds_overflow_example:
  "save_video True example_env (example_buffer 2 [pkt 1, pkt 2]) 1 86400000000000 1 640 480
       False 7 [pkt 3]
     = (Raised (OverflowError ''timedelta(seconds=after_seconds) out of range''),
        \<lparr>buffer = [pkt 2, pkt 3], maxlen = Some 2, temporary_queues = [(7, [])]\<rparr>)"
  by (simp add: save_video_def get_slice_def example_buffer_def pkt_def timedelta_ok_def
      default_callback_def deque_append_def Let_def)

text \<open>
  C5. What the code does on a buffer that is not full: capacity 4, two entries held,
  \<open>b = 2\<close>, \<open>f = 1\<close>, \<open>a = 1\<close>, and entries arriving during the call of which the
  second is later than every entry held by more than a second. The buffer holds
  \<open>b * f\<close> entries, as the claim asks. The slice is read from index \<open>4 - 2\<close>, counted
  from the capacity and not from the number of entries held, so it is empty; the call
  raises \<open>IndexError\<close> where it looks for the last "before" entry, nothing reaches the
  muxing collaborator, and the temporary queue stays in the registry.
\<close>

theorem save_video_partly_filled_buffer_raises:
  "2 * 1 \<le> int (length (buffer (example_buffer 4 [pkt 1, pkt 2])))
   \<and> get_slice (example_buffer 4 [pkt 1, pkt 2]) (4 - 2 * 1) None = Inr []
   \<and> save_video True example_env (example_buffer 4 [pkt 1, pkt 2]) 2 1 1 640 480 False 7
        [pkt 3, pkt 1000003]
     = (Raised (IndexError ''list index out of range''),
        (example_buffer 4 [pkt 1, pkt 2])\<lparr>temporary_queues := [(7, [])]\<rparr>)"
  by (simp add: save_video_def get_slice_def example_buffer_def pkt_def)

subsection \<open>An export whose "before" slice is empty\<close>




section \<open>The coordinator\<close>

subsection \<open>Loops and the stop event\<close>

lemma running_report_body [simp]: "running (report_body env m) = running m"
  by (simp add: report_body_def)

lemma running_poll_body [simp]: "running (poll_body env m) = running m"
  by (simp add: poll_body_def)

lemma running_connect_body [simp]: "running (connect_body m) = running m"
  by (simp add: connect_body_def)

lemma while_running_never:
  assumes "\<And>x. running (body x) = running x" and "running m"
  shows "while_running body fuel m = None"
  using assms(2) by (induction fuel arbitrary: m) (simp_all add: assms(1))

lemma start_devices_frame:
  "start_devices env ds m = (r, m') \<Longrightarrow>
   running m' = running m \<and> connection_thread m' = connection_thread m
   \<and> reporting_thread m' = reporting_thread m \<and> polling_thread m' = polling_thread m
   \<and> devices m' = devices m \<and> stop_event m' = stop_event m
   \<and> booted_cameras m' = booted_cameras m"
  by (induction env ds m rule: start_devices.induct) (auto split: option.splits)

lemma start_devices_mxid:
  "start_devices env ds m = (r, m') \<Longrightarrow> device_mxid (heap m' d) = device_mxid (heap m d)"
  by (induction env ds m rule: start_devices.induct) (auto split: option.splits if_splits)

lemma start_live: "start env m = (Returned u, m') \<Longrightarrow> live m'"
  by (auto simp: start_def Let_def live_def split: if_splits prod.splits outcome.splits
      dest: start_devices_frame)

lemma snd_start_live: "live m \<Longrightarrow> live (snd (start env m))"
  by (simp add: start_def Let_def live_def)

lemma step_live: "live m \<Longrightarrow> live (step env m x)"
proof (cases x)
  case Start
  then show "live m \<Longrightarrow> live (step env m x)" by (simp add: snd_start_live)
qed (auto simp: live_def add_device_def remove_device_def report_body_def poll_body_def
      connect_body_def)

lemma run_live: "live m \<Longrightarrow> live (run env m ops)"
  unfolding run_def by (induction ops arbitrary: m) (simp_all add: step_live)

text \<open>
  C1. What the code does: the three loops test \<^verbatim>\<open>self.running\<close>, which
  \<^verbatim>\<open>start\<close> sets and nothing clears; \<^verbatim>\<open>stop\<close> sets the stop event only. After a
  \<^verbatim>\<open>start\<close> that returned, and whatever operations followed, none of the loops is
  left after the stop event is set, however many passes it is given, and \<^verbatim>\<open>stop\<close>
  stays in its first join (the connection thread's): it does not return.
\<close>

theorem stop_after_start_never_returns:
  assumes "start env m0 = (Returned (), m1)" and "m = run env m1 ops"
  shows "running m
       \<and> connect fuel (m\<lparr>stop_event := True\<rparr>) = None
       \<and> report env fuel (m\<lparr>stop_event := True\<rparr>) = None
       \<and> poll env fuel (m\<lparr>stop_event := True\<rparr>) = None
       \<and> stop env fuel m = (Blocked, m\<lparr>stop_event := True\<rparr>)"
proof -
  have l: "live m" using assms start_live run_live by blast
  then have r: "running (m\<lparr>stop_event := True\<rparr>)" by (simp add: live_def)
  have c: "connect fuel (m\<lparr>stop_event := True\<rparr>) = None"
    unfolding connect_def using r by (intro while_running_never) simp_all
  have p: "report env fuel (m\<lparr>stop_event := True\<rparr>) = None"
    unfolding report_def using r by (intro while_running_never) simp_all
  have q: "poll env fuel (m\<lparr>stop_event := True\<rparr>) = None"
    unfolding poll_def using r by (intro while_running_never) simp_all
  have s: "stop env fuel m = (Blocked, m\<lparr>stop_event := True\<rparr>)"
    using l c by (simp add: stop_def Let_def graceful_thread_join_def live_def)
  from l c p q s show ?thesis by (simp add: live_def)
qed

theorem stop_after_start_witness:
  "start quiet (add_device (example_manager [0, 1]) 0)
     = (Returned (),
        snd (start quiet (add_device (example_manager [0, 1]) 0)))
   \<and> running (run quiet (snd (start quiet (add_device (example_manager [0, 1]) 0))) [PollPass])
   \<and> fst (stop quiet 100
        (run quiet (snd (start quiet (add_device (example_manager [0, 1]) 0))) [PollPass]))
      = Blocked"
proof -
  have h: "start quiet (add_device (example_manager [0, 1]) 0)
     = (Returned (), snd (start quiet (add_device (example_manager [0, 1]) 0)))"
    by (simp add: start_def Let_def add_device_def example_manager_def HubCameraManager_init_def
        quiet_def)
  show ?thesis
    using stop_after_start_never_returns [OF h refl, where ops = "[PollPass]" and fuel = 100] h
    by simp
qed

subsection \<open>A device whose poll fails\<close>

lemma poll_cameras_failed:
  "c \<in> set cs \<Longrightarrow> \<not> poll_ok env c \<Longrightarrow> hub_camera (poll_cameras env cs h c) = None"
proof (induction cs arbitrary: h)
  case Nil
  then show ?case by simp
next
  case (Cons x cs)
  have keep: "\<And>h. hub_camera (h c) = None \<Longrightarrow> hub_camera (poll_cameras env cs h c) = None"
  proof -
    fix h :: "nat \<Rightarrow> Device"
    show "hub_camera (h c) = None \<Longrightarrow> hub_camera (poll_cameras env cs h c) = None"
      by (induction cs arbitrary: h) simp_all
  qed
  show ?case
  proof (cases "x = c")
    case True
    then show ?thesis using Cons.prems(2) by (simp add: keep)
  next
    case False
    then show ?thesis using Cons by simp
  qed
qed

lemma poll_cameras_frame:
  "device_mxid (poll_cameras env cs h d) = device_mxid (h d)
   \<and> state (poll_cameras env cs h d) = state (h d)"
  by (induction cs arbitrary: h) simp_all

lemma poll_cameras_untouched:
  "poll_ok env d \<or> d \<notin> set cs \<Longrightarrow> poll_cameras env cs h d = h d"
  by (induction cs arbitrary: h) auto

text \<open>
  C3. What the code does: a pass of the polling loop over a booted camera whose
  \<^verbatim>\<open>poll()\<close> is false clears the camera's session and keeps the device, with its
  identity, in the device set; it also leaves \<^verbatim>\<open>_connected_devices\<close> as it was, so
  the test of the connection loop (connected count against total count) has the value
  it had before, and a pass of the connection loop changes nothing.
\<close>

theorem poll_failure_leaves_connected_list:
  assumes "c \<in> set (booted_cameras m)" and "\<not> poll_ok env c"
  shows "hub_camera (heap (poll_body env m) c) = None
       \<and> device_mxid (heap (poll_body env m) c) = device_mxid (heap m c)
       \<and> devices (poll_body env m) = devices m
       \<and> connected_devices (poll_body env m) = connected_devices m
       \<and> connect_idles (poll_body env m) = connect_idles m
       \<and> connect_body (poll_body env m) = poll_body env m"
  using assms
  by (simp add: poll_body_def poll_cameras_failed poll_cameras_frame connect_idles_def
      connect_body_def)

theorem poll_failure_witness:
  "hub_camera (heap (poll_body quiet (snd (start quiet (add_device (example_manager [0]) 0)))) 0)
     = None
   \<and> connected_devices (poll_body quiet (snd (start quiet (add_device (example_manager [0]) 0))))
     = [0]
   \<and> devices (poll_body quiet (snd (start quiet (add_device (example_manager [0]) 0)))) = [0]
   \<and> connect_idles (poll_body quiet (snd (start quiet (add_device (example_manager [0]) 0))))"
proof -
  have s: "snd (start quiet (add_device (example_manager [0]) 0))
     = (example_manager [0])\<lparr>devices := [0], connected_devices := [0], running := True,
          connection_thread := Alive, reporting_thread := Alive, polling_thread := Alive,
          heap := example_heap(0 := (example_heap 0)\<lparr>state := CONNECTED,
                    hub_camera := Some \<lparr>exit_raises = None\<rparr>\<rparr>)\<rparr>"
    by (simp add: start_def Let_def add_device_def example_manager_def HubCameraManager_init_def
        quiet_def)
  have b: "0 \<in> set (booted_cameras (snd (start quiet (add_device (example_manager [0]) 0))))"
    unfolding s by (simp add: example_manager_def)
  have p: "\<not> poll_ok quiet 0" by (simp add: quiet_def)
  show ?thesis
    using poll_failure_leaves_connected_list [OF b p]
    by (simp add: s connect_idles_def poll_body_def)
qed

subsection \<open>Releasing the devices in stop\<close>

lemma exit_cameras_quiet:
  "\<forall>d \<in> set cs. exits_quietly (h d) \<Longrightarrow>
   exit_cameras h cs log = (Returned (), log @ filter (\<lambda>d. state (h d) \<noteq> DISCONNECTED) cs)"
  by (induction cs arbitrary: log) (auto simp: exits_quietly_def split: option.splits)

lemma exit_cameras_app:
  "\<forall>d \<in> set pre. exits_quietly (h d) \<Longrightarrow>
   exit_cameras h (pre @ cs) log
     = exit_cameras h cs (log @ filter (\<lambda>d. state (h d) \<noteq> DISCONNECTED) pre)"
  by (induction pre arbitrary: log) (auto simp: exits_quietly_def split: option.splits)

lemma exit_cameras_fail:
  assumes "\<forall>d \<in> set pre. exits_quietly (h d)"
    and "state (h c) \<noteq> DISCONNECTED" and "hub_camera (h c) = Some s" and "exit_raises s = Some e"
  shows "exit_cameras h (pre @ c # post) log
     = (Raised (Exception (''Device '' @ device_mxid (h c)
          @ '': could not exit with exception: '' @ e @ ''.'')),
        log @ filter (\<lambda>d. state (h d) \<noteq> DISCONNECTED) pre @ [c])"
  using assms by (simp add: exit_cameras_app)

lemma stop_no_thread_alive:
  assumes "connection_thread m \<noteq> Alive" and "reporting_thread m \<noteq> Alive"
    and "polling_thread m \<noteq> Alive"
  shows "stop env fuel m = release env (m\<lparr>stop_event := True\<rparr>)"
  using assms by (simp add: stop_def Let_def graceful_thread_join_def joined_def)

text \<open>
  C2, as the code has it. For a manager none of whose loop threads is alive (so that the
  joins of \<^verbatim>\<open>stop\<close> return): when \<^verbatim>\<open>destroy_all_streams\<close> raises, \<^verbatim>\<open>stop\<close>
  raises at once an \<open>Exception\<close> that says so, and no session is closed; when a booted
  camera's \<^verbatim>\<open>__exit__\<close> raises, the cameras before it having passed, \<^verbatim>\<open>stop\<close>
  raises at once an \<open>Exception\<close> that names the device, and the sessions closed are
  those of the cameras before it that are not \<open>DISCONNECTED\<close> and its own: no camera
  after it is attempted; when nothing raises, \<^verbatim>\<open>stop\<close> returns and every booted
  camera that is not \<open>DISCONNECTED\<close> has had its session closed, once for each of its
  places in the list.
\<close>

theorem stop_raises_at_first_failure:
  assumes "connection_thread m \<noteq> Alive" and "reporting_thread m \<noteq> Alive"
    and "polling_thread m \<noteq> Alive"
  shows "(destroy_raises env = Some e \<longrightarrow>
            stop env fuel m
              = (Raised (Exception (''Destroy all streams excepted with: '' @ e @ ''.'')),
                 m\<lparr>stop_event := True\<rparr>))
       \<and> (destroy_raises env = None \<and> booted_cameras m = pre @ c # post
            \<and> (\<forall>d \<in> set pre. exits_quietly (heap m d))
            \<and> state (heap m c) \<noteq> DISCONNECTED
            \<and> hub_camera (heap m c) = Some s \<and> exit_raises s = Some e \<longrightarrow>
            fst (stop env fuel m)
              = Raised (Exception (''Device '' @ device_mxid (heap m c)
                  @ '': could not exit with exception: '' @ e @ ''.''))
            \<and> exited (snd (stop env fuel m))
              = exited m @ filter (\<lambda>d. state (heap m d) \<noteq> DISCONNECTED) pre @ [c])
       \<and> (destroy_raises env = None \<and> (\<forall>d \<in> set (booted_cameras m). exits_quietly (heap m d)) \<longrightarrow>
            fst (stop env fuel m) = Returned ()
            \<and> exited (snd (stop env fuel m))
              = exited m @ filter (\<lambda>d. state (heap m d) \<noteq> DISCONNECTED) (booted_cameras m))"
  unfolding stop_no_thread_alive [OF assms]
  by (auto simp: release_def exit_cameras_fail exit_cameras_quiet)

theorem stop_first_failure_witness:
  "stop quiet 0 (example_manager [1, 0, 1])
     = (Raised (Exception ''Device A: could not exit with exception: boom.''),
        (example_manager [1, 0, 1])\<lparr>stop_event := True, streams_destroyed := True,
           exited := [1, 0]\<rparr>)"
proof -
  have t: "connection_thread (example_manager [1, 0, 1]) \<noteq> Alive"
    "reporting_thread (example_manager [1, 0, 1]) \<noteq> Alive"
    "polling_thread (example_manager [1, 0, 1]) \<noteq> Alive"
    by (simp_all add: example_manager_def HubCameraManager_init_def)
  have "fst (stop quiet 0 (example_manager [1, 0, 1]))
      = Raised (Exception (''Device '' @ device_mxid (heap (example_manager [1, 0, 1]) 0)
                  @ '': could not exit with exception: '' @ ''boom'' @ ''.''))
     \<and> exited (snd (stop quiet 0 (example_manager [1, 0, 1])))
      = exited (example_manager [1, 0, 1])
        @ filter (\<lambda>d. state (heap (example_manager [1, 0, 1]) d) \<noteq> DISCONNECTED) [1] @ [0]"
    using stop_raises_at_first_failure [OF t, of quiet "''boom''" 0 "[1]" 0 "[1]"
        "\<lparr>exit_raises = Some ''boom''\<rparr>"]
    by (simp add: example_manager_def HubCameraManager_init_def example_heap_def
        example_device_def quiet_def exits_quietly_def)
  moreover have "stop quiet 0 (example_manager [1, 0, 1])
       = (fst (stop quiet 0 (example_manager [1, 0, 1])),
          (example_manager [1, 0, 1])\<lparr>stop_event := True, streams_destroyed := True,
             exited := exited (snd (stop quiet 0 (example_manager [1, 0, 1])))\<rparr>)"
    by (simp add: stop_def Let_def graceful_thread_join_def joined_def release_def
        example_manager_def HubCameraManager_init_def example_heap_def example_device_def
        quiet_def)
  ultimately show ?thesis
    by (simp add: example_manager_def HubCameraManager_init_def example_heap_def
        example_device_def)
qed

text \<open>
  C2 as stated fails: two booted cameras, both \<open>CONNECTED\<close>, the first one's
  \<^verbatim>\<open>__exit__\<close> raising. \<^verbatim>\<open>stop\<close> raises for the first and the second one's session
  is never closed.
\<close>

theorem stop_skips_remaining_devices_counterexample:
  "state (heap (example_manager [0, 1]) 1) \<noteq> DISCONNECTED
   \<and> 1 \<in> set (booted_cameras (example_manager [0, 1]))
   \<and> fst (stop quiet 0 (example_manager [0, 1]))
       = Raised (Exception ''Device A: could not exit with exception: boom.'')
   \<and> 1 \<notin> set (exited (snd (stop quiet 0 (example_manager [0, 1]))))"
  by (simp add: stop_def Let_def graceful_thread_join_def joined_def release_def
      example_manager_def HubCameraManager_init_def example_heap_def example_device_def quiet_def)

subsection \<open>Identities of the device set\<close>

lemma step_mxid: "device_mxid (heap (step env m x) d) = device_mxid (heap m d)"
proof (cases x)
  case Start
  obtain r m' where sd:
    "start_devices env (devices m) (m\<lparr>running := True, connection_thread := Alive\<rparr>) = (r, m')"
    by (cases "start_devices env (devices m) (m\<lparr>running := True, connection_thread := Alive\<rparr>)")
  have "device_mxid (heap m' d) = device_mxid (heap m d)"
    using start_devices_mxid [OF sd, of d] by simp
  then show ?thesis using Start sd
    by (auto simp: start_def Let_def split: outcome.splits)
qed (simp_all add: add_device_def remove_device_def report_body_def poll_body_def
      connect_body_def poll_cameras_frame)

lemma step_devices:
  "devices (step env m x)
     = (case x of AddDevice d \<Rightarrow> devices m @ [d]
        | RemoveDevice d \<Rightarrow> remove1 d (devices m)
        | _ \<Rightarrow> devices m)"
proof (cases x)
  case Start
  obtain r m' where sd:
    "start_devices env (devices m) (m\<lparr>running := True, connection_thread := Alive\<rparr>) = (r, m')"
    by (cases "start_devices env (devices m) (m\<lparr>running := True, connection_thread := Alive\<rparr>)")
  have "devices m' = devices m"
    using start_devices_frame [OF sd] by simp
  then show ?thesis using Start sd
    by (auto simp: start_def Let_def split: outcome.splits)
next
  case (RemoveDevice d)
  then show ?thesis by (simp add: remove_device_def remove1_idem)
qed (simp_all add: add_device_def report_body_def poll_body_def connect_body_def)

lemma distinct_map_remove1:
  "distinct (map f xs) \<Longrightarrow> distinct (map f (remove1 d xs))"
  by (induction xs) (auto simp: image_iff dest: notin_set_remove1)

lemma identities_step_other:
  assumes "\<And>d. x \<noteq> AddDevice d" and "distinct (identities m)"
  shows "distinct (identities (step env m x))"
proof -
  have eq: "identities (step env m x)
      = map (\<lambda>d. device_mxid (heap m d)) (devices (step env m x))"
    by (simp add: identities_def step_mxid)
  from assms(1) have na: "\<forall>d. x \<noteq> AddDevice d" by blast
  have a2: "distinct (map (\<lambda>d. device_mxid (heap m d)) (devices m))"
    using assms(2) by (simp add: identities_def)
  show ?thesis
    unfolding eq step_devices using a2 na
    by (cases x) (auto simp: distinct_map_remove1)
qed

lemma identities_add_device:
  assumes "device_mxid (heap m d) \<notin> set (identities m)" and "distinct (identities m)"
  shows "distinct (identities (add_device m d))"
  using assms by (simp add: identities_def add_device_def)

text \<open>
  C4, as the code has it. \<^verbatim>\<open>add_device\<close> appends without looking at the device set.
  A sequence of coordinator operations (\<^verbatim>\<open>add_device\<close>, \<^verbatim>\<open>remove_device\<close>,
  \<^verbatim>\<open>start\<close>, passes of the three loops) in which every \<^verbatim>\<open>add_device\<close> adds a
  device whose identity the set does not hold at that moment keeps the identities of the
  device set free of duplicates.
\<close>

theorem fresh_adds_keep_identities_distinct:
  assumes "distinct (identities m)" and "adds_fresh env m ops"
  shows "distinct (identities (run env m ops))"
  using assms
proof (induction ops arbitrary: m)
  case Nil
  then show ?case by (simp add: run_def)
next
  case (Cons x ops)
  have r: "run env m (x # ops) = run env (step env m x) ops" by (simp add: run_def)
  show ?case
  proof (cases "\<exists>d. x = AddDevice d")
    case True
    then obtain d where x: "x = AddDevice d" by blast
    have "distinct (identities (add_device m d))"
      using Cons.prems x by (simp add: identities_add_device)
    then show ?thesis unfolding r using Cons.IH [of "add_device m d"] Cons.prems(2) x by simp
  next
    case False
    then have nx: "\<And>d. x \<noteq> AddDevice d" by blast
    have d: "distinct (identities (step env m x))"
      using identities_step_other [OF nx Cons.prems(1)] .
    have "adds_fresh env (step env m x) ops"
      using Cons.prems(2) nx by (cases x) simp_all
    then show ?thesis unfolding r using Cons.IH [OF d] by simp
  qed
qed

theorem fresh_adds_witness:
  "identities (run quiet (HubCameraManager_init example_heap)
      [AddDevice 0, AddDevice 1, Start, PollPass, RemoveDevice 0, AddDevice 0])
     = [''B'', ''A'']
   \<and> distinct (identities (run quiet (HubCameraManager_init example_heap)
      [AddDevice 0, AddDevice 1, Start, PollPass, RemoveDevice 0, AddDevice 0]))"
proof -
  have d: "distinct (identities (HubCameraManager_init example_heap))"
    by (simp add: identities_def HubCameraManager_init_def)
  have f: "adds_fresh quiet (HubCameraManager_init example_heap)
      [AddDevice 0, AddDevice 1, Start, PollPass, RemoveDevice 0, AddDevice 0]"
    by (simp add: identities_def HubCameraManager_init_def add_device_def remove_device_def
        start_def Let_def poll_body_def quiet_def example_heap_def example_device_def)
  have i: "identities (run quiet (HubCameraManager_init example_heap)
      [AddDevice 0, AddDevice 1, Start, PollPass, RemoveDevice 0, AddDevice 0])
     = [''B'', ''A'']"
    by (simp add: run_def identities_def HubCameraManager_init_def add_device_def
        remove_device_def start_def Let_def poll_body_def quiet_def example_heap_def
        example_device_def)
  show ?thesis using fresh_adds_keep_identities_distinct [OF d f] i by simp
qed

text \<open>
  C4 as stated fails: the same device added twice is twice in the device set.
\<close>

theorem add_device_twice_counterexample:
  "distinct (identities (HubCameraManager_init example_heap))
   \<and> identities (run quiet (HubCameraManager_init example_heap) [AddDevice 0, AddDevice 0])
       = [''A'', ''A'']
   \<and> \<not> distinct (identities
         (run quiet (HubCameraManager_init example_heap) [AddDevice 0, AddDevice 0]))"
  by (simp add: run_def identities_def HubCameraManager_init_def add_device_def example_heap_def
      example_device_def)

end
